theory Spec2Isabelle
  imports Complex_Main "HOL-Library.Multiset"
begin

section \<open>Coordinates, points, intervals\<close>

text \<open>
  The sweep of \<^verbatim>\<open>sweep-graph.cpp\<close> works on C++ \<^verbatim>\<open>double\<close>s. Point coordinates are
  modelled with their non-finite values written out (an input curve may carry them);
  rounding is not modelled. Curve parameters (\<^verbatim>\<open>f\<close>, \<^verbatim>\<open>t\<close>, split values) are reals.
\<close>

datatype Dim2 = X | Y

fun other_dim :: "Dim2 \<Rightarrow> Dim2" where
  "other_dim X = Y"
| "other_dim Y = X"

datatype coord = Fin real | PInf | NInf | NaN

fun c_less :: "coord \<Rightarrow> coord \<Rightarrow> bool" where
  "c_less (Fin a) (Fin b) = (a < b)"
| "c_less (Fin a) PInf = True"
| "c_less NInf (Fin b) = True"
| "c_less NInf PInf = True"
| "c_less _ _ = False"

fun c_eq :: "coord \<Rightarrow> coord \<Rightarrow> bool" where
  "c_eq (Fin a) (Fin b) = (a = b)"
| "c_eq PInf PInf = True"
| "c_eq NInf NInf = True"
| "c_eq _ _ = False"

definition c_le :: "coord \<Rightarrow> coord \<Rightarrow> bool" where
  "c_le a b = (c_less a b \<or> c_eq a b)"

definition c_ge :: "coord \<Rightarrow> coord \<Rightarrow> bool" where
  "c_ge a b = c_le b a"

fun c_finite :: "coord \<Rightarrow> bool" where
  "c_finite (Fin a) = True"
| "c_finite _ = False"

type_synonym Point = "coord \<times> coord"

fun pt :: "Point \<Rightarrow> Dim2 \<Rightarrow> coord" where
  "pt p X = fst p"
| "pt p Y = snd p"

definition pt_finite :: "Point \<Rightarrow> bool" where
  "pt_finite p = (c_finite (fst p) \<and> c_finite (snd p))"

text \<open>
  Modelled from the spec: the tolerance comparison \<^verbatim>\<open>are_near\<close> of the geometry library
  (its header is not among the sources). Two values are near when they differ by at most
  the tolerance; the tolerance \<open>eps\<close> is a parameter of the model. A difference that
  involves a non-finite value is never within tolerance.
\<close>

definition are_near :: "real \<Rightarrow> real \<Rightarrow> real \<Rightarrow> bool" where
  "are_near eps a b = (\<bar>a - b\<bar> \<le> eps)"

fun c_near :: "real \<Rightarrow> coord \<Rightarrow> coord \<Rightarrow> bool" where
  "c_near eps (Fin a) (Fin b) = are_near eps a b"
| "c_near eps _ _ = False"

definition pt_near :: "real \<Rightarrow> Point \<Rightarrow> Point \<Rightarrow> bool" where
  "pt_near eps a b = (c_near eps (fst a) (fst b) \<and> c_near eps (snd a) (snd b))"

text \<open>
  Modelled from the spec: the library's closed interval, built from two values in either
  order, with membership and intersection tests.
\<close>

definition Interval :: "real \<Rightarrow> real \<Rightarrow> real \<times> real" where
  "Interval u v = (if u \<le> v then (u, v) else (v, u))"

definition contains :: "real \<times> real \<Rightarrow> real \<Rightarrow> bool" where
  "contains iv v = (fst iv \<le> v \<and> v \<le> snd iv)"

definition CInterval :: "coord \<Rightarrow> coord \<Rightarrow> coord \<times> coord" where
  "CInterval u v = (if c_le u v then (u, v) else (v, u))"

definition c_contains :: "coord \<times> coord \<Rightarrow> coord \<Rightarrow> bool" where
  "c_contains iv v = (c_le (fst iv) v \<and> c_le v (snd iv))"

definition intersects :: "coord \<times> coord \<Rightarrow> coord \<times> coord \<Rightarrow> bool" where
  "intersects a b =
     (c_contains a (fst b) \<or> c_contains a (snd b)
      \<or> (c_le (fst b) (fst a) \<and> c_le (snd a) (snd b)))"

section \<open>Curves, sections, vertices\<close>

text \<open>
  A curve is consumed through the operations the sweep calls on it: evaluation, unit
  tangent, the roots of one coordinate at a value, and the roots of the derivative curve.
\<close>

record Curve =
  pointAt :: "real \<Rightarrow> Point"
  unitTangentAt :: "real \<Rightarrow> Point"
  roots :: "coord \<Rightarrow> Dim2 \<Rightarrow> real list"
  deriv_roots :: "coord \<Rightarrow> Dim2 \<Rightarrow> real list"

type_synonym Path = "Curve list"

record CurveIx =
  path :: nat
  ix :: nat

definition get :: "Path list \<Rightarrow> CurveIx \<Rightarrow> Curve option" where
  "get ps c =
     (if path c < length ps \<and> ix c < length (ps ! path c)
      then Some (ps ! path c ! ix c) else None)"

definition lexo_point :: "Point \<Rightarrow> Point \<Rightarrow> Dim2 \<Rightarrow> bool" where
  "lexo_point a b d =
     (case d of
        Y \<Rightarrow> c_less (pt a Y) (pt b Y) \<or> (c_eq (pt a Y) (pt b Y) \<and> c_less (pt a X) (pt b X))
      | X \<Rightarrow> c_less (pt a X) (pt b X) \<or> (c_eq (pt a X) (pt b X) \<and> c_less (pt a Y) (pt b Y)))"

record Section =
  s_curve :: CurveIx
  s_f :: real
  s_t :: real
  s_fp :: Point
  s_tp :: Point
  s_windings :: "int list"

datatype error = InvalidGeometry | AssertionFailed | OutOfBounds

text \<open>
  \<open>AssertionFailed\<close> is the failing \<^verbatim>\<open>assert\<close> of \<^verbatim>\<open>Section::set_to\<close>; \<open>OutOfBounds\<close> is a
  read or write past the end of a vector. \<open>InvalidGeometry\<close> is the error kind the
  specification names for non-finite input.
\<close>

definition mk_Section :: "Curve \<Rightarrow> Dim2 \<Rightarrow> CurveIx \<Rightarrow> real \<Rightarrow> real \<Rightarrow> Section" where
  "mk_Section c d cix fd td =
     (let p = pointAt c fd; q = pointAt c td
      in if lexo_point q p d
         then \<lparr>s_curve = cix, s_f = td, s_t = fd, s_fp = q, s_tp = p, s_windings = []\<rparr>
         else \<lparr>s_curve = cix, s_f = fd, s_t = td, s_fp = p, s_tp = q, s_windings = []\<rparr>)"

definition set_to :: "Curve \<Rightarrow> Dim2 \<Rightarrow> real \<Rightarrow> Section \<Rightarrow> error + Section" where
  "set_to c d ti s =
     (let s' = s\<lparr>s_t := ti, s_tp := pointAt c ti\<rparr>
      in if c_ge (pt (s_tp s') d) (pt (s_fp s') d) then Inr s' else Inl AssertionFailed)"

definition bbox :: "Section \<Rightarrow> Dim2 \<Rightarrow> coord \<times> coord" where
  "bbox s d = CInterval (pt (s_fp s) d) (pt (s_tp s) d)"

record Edge =
  e_section :: nat
  e_other :: nat

record Vertex =
  enters :: "Edge list"
  exits :: "Edge list"
  avg :: Point

definition mk_Vertex :: "Point \<Rightarrow> Vertex" where
  "mk_Vertex p = \<lparr>enters = [], exits = [], avg = p\<rparr>"

record Graph =
  vertices :: "Vertex list"
  sections :: "Section list"

section \<open>Splitting\<close>

text \<open>
  \<^verbatim>\<open>std::unique\<close> with the nearness predicate: an element is dropped when it is near the
  last element kept.
\<close>

fun unique_from :: "real \<Rightarrow> real \<Rightarrow> real list \<Rightarrow> real list" where
  "unique_from eps k [] = []"
| "unique_from eps k (y # ys) =
     (if are_near eps k y then unique_from eps k ys else y # unique_from eps y ys)"

fun unique_near :: "real \<Rightarrow> real list \<Rightarrow> real list" where
  "unique_near eps [] = []"
| "unique_near eps (x # xs) = x # unique_from eps x xs"

definition process_splits :: "real \<Rightarrow> real list \<Rightarrow> real \<Rightarrow> real \<Rightarrow> real list" where
  "process_splits eps splits f t =
     (let s1 = sort (splits @ [f, t]);
          s2 = unique_near eps s1;
          s3 = (if f > t then rev s2 else s2);
          s4 = dropWhile (\<lambda>x. x \<noteq> f) s3
      in rev (dropWhile (\<lambda>x. x \<noteq> t) (rev s4)))"

definition mono_splits :: "real \<Rightarrow> Curve \<Rightarrow> real list" where
  "mono_splits eps c =
     process_splits eps (deriv_roots c (Fin 0) X @ deriv_roots c (Fin 0) Y) 0 1"

definition split_section ::
  "real \<Rightarrow> Path list \<Rightarrow> Dim2 \<Rightarrow> Section \<Rightarrow> real list \<Rightarrow> error + (Section \<times> Section list)" where
  "split_section eps ps d s cuts0 =
     (let cuts = process_splits eps cuts0 (s_f s) (s_t s)
      in case get ps (s_curve s) of
           None \<Rightarrow> Inl OutOfBounds
         | Some c \<Rightarrow>
             if length cuts < 2 then Inl OutOfBounds
             else (case set_to c d (cuts ! 1) s of
                     Inl e \<Rightarrow> Inl e
                   | Inr s' \<Rightarrow>
                       Inr (s', map (\<lambda>i. mk_Section c d (s_curve s) (cuts ! (i - 1)) (cuts ! i))
                                    [2..<length cuts])))"

definition mono_sections :: "real \<Rightarrow> Path list \<Rightarrow> Section list" where
  "mono_sections eps ps =
     concat (map (\<lambda>i.
       concat (map (\<lambda>j.
         (let splits = mono_splits eps (ps ! i ! j)
          in map (\<lambda>k. mk_Section (ps ! i ! j) X \<lparr>path = i, ix = j\<rparr> (splits ! (k - 1)) (splits ! k))
                 [1..<length splits]))
         [0..<length (ps ! i)]))
       [0..<length ps])"

section \<open>The two orders\<close>

definition HeapSorter :: "Dim2 \<Rightarrow> Section \<Rightarrow> Section \<Rightarrow> bool" where
  "HeapSorter d a b = lexo_point (s_fp b) (s_fp a) d"

definition section_root :: "Path list \<Rightarrow> Section \<Rightarrow> coord \<Rightarrow> Dim2 \<Rightarrow> error + real" where
  "section_root ps s v d =
     (case get ps (s_curve s) of
        None \<Rightarrow> Inl OutOfBounds
      | Some c \<Rightarrow>
          (case List.find (contains (Interval (s_f s) (s_t s))) (roots c v d) of
             Some r \<Rightarrow> Inr r
           | None \<Rightarrow> Inr (- 1)))"

fun c_neg :: "coord \<Rightarrow> coord" where
  "c_neg (Fin a) = Fin (- a)"
| "c_neg PInf = NInf"
| "c_neg NInf = PInf"
| "c_neg NaN = NaN"

definition pt_neg :: "Point \<Rightarrow> Point" where
  "pt_neg p = (c_neg (fst p), c_neg (snd p))"

definition section_order ::
  "real \<Rightarrow> Path list \<Rightarrow> Dim2 \<Rightarrow> Section \<Rightarrow> real \<Rightarrow> Section \<Rightarrow> real \<Rightarrow> error + bool" where
  "section_order eps ps dm a a_t b b_t =
     (case get ps (s_curve a) of
        None \<Rightarrow> Inl OutOfBounds
      | Some ca \<Rightarrow>
     (case get ps (s_curve b) of
        None \<Rightarrow> Inl OutOfBounds
      | Some cb \<Rightarrow>
          (let ap = pointAt ca a_t; bp = pointAt cb b_t
           in if c_near eps (pt ap dm) (pt bp dm) then
                if c_less (pt (s_tp a) dm) (pt ap dm) \<and> c_less (pt ap dm) (pt (s_tp b) dm)
                then Inr True
                else if c_less (pt ap dm) (pt (s_tp a) dm) \<and> c_less (pt (s_tp b) dm) (pt ap dm)
                then Inr False
                else
                  (let ad0 = unitTangentAt ca (s_f a);
                       bd0 = unitTangentAt cb (s_f b);
                       ad = (if c_less (pt ad0 (other_dim dm)) (Fin 0) then pt_neg ad0 else ad0);
                       bd = (if c_less (pt bd0 (other_dim dm)) (Fin 0) then pt_neg bd0 else bd0)
                   in Inr (c_less (pt ad dm) (pt bd dm)))
              else Inr (c_less (pt ap dm) (pt bp dm)))))"

text \<open>
  \<^verbatim>\<open>SectionSorter::operator()\<close>. The flag \<open>same\<close> is the address test \<^verbatim>\<open>&a == &b\<close>.
\<close>

definition SectionSorter ::
  "real \<Rightarrow> Path list \<Rightarrow> Dim2 \<Rightarrow> bool \<Rightarrow> Section \<Rightarrow> Section \<Rightarrow> error + bool" where
  "SectionSorter eps ps dm same a b =
     (if same then Inr False
      else if c_le (snd (bbox a dm)) (fst (bbox b dm)) then Inr True
      else if c_le (snd (bbox b dm)) (fst (bbox a dm)) then Inr False
      else if intersects (bbox a (other_dim dm)) (bbox b (other_dim dm)) then
        if c_near eps (pt (s_fp a) (other_dim dm)) (pt (s_fp b) (other_dim dm)) then
          section_order eps ps dm
            a (if s_f a > s_t a then s_f a - 1 / 100 else s_f a + 1 / 100)
            b (if s_f b > s_t b then s_f b - 1 / 100 else s_f b + 1 / 100)
        else if c_less (pt (s_fp a) (other_dim dm)) (pt (s_fp b) (other_dim dm)) then
          (case section_root ps a (pt (s_fp b) (other_dim dm)) (other_dim dm) of
             Inl e \<Rightarrow> Inl e
           | Inr ta0 \<Rightarrow>
               (let ta = (if ta0 = - 1 then (s_t a + s_f a) / 2 else ta0)
                in section_order eps ps dm a ta b (s_f b)))
        else
          (case section_root ps b (pt (s_fp a) (other_dim dm)) (other_dim dm) of
             Inl e \<Rightarrow> Inl e
           | Inr tb0 \<Rightarrow>
               (let tb = (if tb0 = - 1 then (s_t b + s_f b) / 2 else tb0)
                in section_order eps ps dm a (s_f a) b tb))
      else Inr (lexo_point (s_fp a) (s_fp b) dm))"

definition nth_chk :: "'a list \<Rightarrow> nat \<Rightarrow> error + 'a" where
  "nth_chk xs i = (if i < length xs then Inr (xs ! i) else Inl OutOfBounds)"

text \<open>\<^verbatim>\<open>std::lower_bound\<close>: binary search by halving, with the comparator applied to
  the middle element and the searched value.\<close>

function lower_bound_loop ::
  "('a \<Rightarrow> error + bool) \<Rightarrow> 'a list \<Rightarrow> nat \<Rightarrow> nat \<Rightarrow> error + nat" where
  "lower_bound_loop cmp xs first len =
     (if len = 0 then Inr first
      else if first + len div 2 < length xs then
        (case cmp (xs ! (first + len div 2)) of
           Inl e \<Rightarrow> Inl e
         | Inr b \<Rightarrow>
             if b then lower_bound_loop cmp xs (first + len div 2 + 1) (len - len div 2 - 1)
             else lower_bound_loop cmp xs first (len div 2))
      else Inl OutOfBounds)"
  by pat_completeness auto
termination
  by (relation "measure (\<lambda>(cmp, xs, first, len). len)") auto

declare lower_bound_loop.simps [simp del]

definition lower_bound :: "('a \<Rightarrow> error + bool) \<Rightarrow> 'a list \<Rightarrow> error + nat" where
  "lower_bound cmp xs = lower_bound_loop cmp xs 0 (length xs)"

section \<open>Vertex registry\<close>

fun find_near :: "real \<Rightarrow> Vertex list \<Rightarrow> Point \<Rightarrow> nat" where
  "find_near eps [] p = 0"
| "find_near eps (v # vs) p = (if pt_near eps (avg v) p then 0 else Suc (find_near eps vs p))"

definition find_vertex :: "real \<Rightarrow> Vertex list \<Rightarrow> Point \<Rightarrow> Vertex list \<times> nat" where
  "find_vertex eps vs p =
     (let i = find_near eps vs p
      in (if i = length vs then vs @ [mk_Vertex p] else vs, i))"

section \<open>The sweep\<close>

text \<open>
  What the sweep takes from outside its own file: the tolerance, the intersection of two
  monotone curve pieces (a list of crossings \<open>(ta, tb)\<close>), and the heap algorithms of the
  standard library, each acting on a range under a comparator.
\<close>

record env =
  EPSILON :: real
  mono_intersect :: "Curve \<Rightarrow> real \<times> real \<Rightarrow> Curve \<Rightarrow> real \<times> real \<Rightarrow> (real \<times> real) list"
  make_heap :: "(Section \<Rightarrow> Section \<Rightarrow> bool) \<Rightarrow> Section list \<Rightarrow> Section list"
  pop_heap :: "(Section \<Rightarrow> Section \<Rightarrow> bool) \<Rightarrow> Section list \<Rightarrow> Section list"
  push_heap :: "(Section \<Rightarrow> Section \<Rightarrow> bool) \<Rightarrow> Section list \<Rightarrow> Section list"
  sort_heap :: "(Section \<Rightarrow> Section \<Rightarrow> bool) \<Rightarrow> Section list \<Rightarrow> Section list"

text \<open>
  The locals of \<^verbatim>\<open>sweep_graph\<close>. The vector \<open>st_monos\<close> keeps its size; the heap is its
  prefix of length \<open>st_monos_end\<close>.
\<close>

record sweep_state =
  st_context :: "Section list"
  st_sections :: "Section list"
  st_monos :: "Section list"
  st_monos_end :: nat
  st_vix :: "nat list"
  st_vertices :: "Vertex list"
  st_windings :: "int list"

text \<open>The global trace buffers \<^verbatim>\<open>monoss\<close> and \<^verbatim>\<open>contexts\<close>.\<close>

record globals =
  monoss :: "Section list list"
  contexts :: "Section list list"

text \<open>
  \<^verbatim>\<open>push_them\<close>: each new element is written at the end of the heap range, then sifted in.
  A write at or past the size of the vector is out of bounds.
\<close>

fun push_them ::
  "env \<Rightarrow> Dim2 \<Rightarrow> Section list \<Rightarrow> Section list \<times> nat \<Rightarrow> error + (Section list \<times> nat)" where
  "push_them E d [] (m, e) = Inr (m, e)"
| "push_them E d (x # xs) (m, e) =
     (if e < length m
      then push_them E d xs
             (push_heap E (HeapSorter d) (take (Suc e) (m[e := x])) @ drop (Suc e) (m[e := x]), Suc e)
      else Inl OutOfBounds)"

text \<open>The winding count of one finished section: the inner loop over the sections below it.\<close>

definition winding_step :: "nat \<Rightarrow> Section \<Rightarrow> int list \<Rightarrow> error + int list" where
  "winding_step j cj w =
     (let k = path (s_curve cj);
          w1 = (if k \<ge> length w then w @ replicate (k + 1 - length w) 0 else w)
      in if c_eq (pt (s_fp cj) X) (pt (s_tp cj) X) then Inr w1
         else
           (let w2 = (if s_f cj < s_t cj then w1[k := w1 ! k + 1] else w1)
            in if s_f cj > s_t cj
               then (if j < length w2 then Inr (w2[j := w2 ! j - 1]) else Inl OutOfBounds)
               else Inr w2))"

fun winding_loop :: "nat \<Rightarrow> Section list \<Rightarrow> int list \<Rightarrow> error + int list" where
  "winding_loop j [] w = Inr w"
| "winding_loop j (c # cs) w =
     (case winding_step j c w of Inl e \<Rightarrow> Inl e | Inr w' \<Rightarrow> winding_loop (Suc j) cs w')"

definition is_finished :: "real \<Rightarrow> coord \<Rightarrow> Section \<Rightarrow> bool" where
  "is_finished eps limit c = (c_less (pt (s_tp c) X) limit \<or> c_near eps (pt (s_tp c) X) limit)"

definition erase :: "'a list \<Rightarrow> nat \<Rightarrow> 'a list" where
  "erase xs i = take i xs @ drop (Suc i) xs"

definition add_exit :: "Vertex list \<Rightarrow> nat \<Rightarrow> Edge \<Rightarrow> error + Vertex list" where
  "add_exit vs v e =
     (if v < length vs then Inr (vs[v := (vs ! v)\<lparr>exits := exits (vs ! v) @ [e]\<rparr>])
      else Inl OutOfBounds)"

definition add_enter :: "Vertex list \<Rightarrow> nat \<Rightarrow> Edge \<Rightarrow> error + Vertex list" where
  "add_enter vs v e =
     (if v < length vs then Inr (vs[v := (vs ! v)\<lparr>enters := enters (vs ! v) @ [e]\<rparr>])
      else Inl OutOfBounds)"

text \<open>The body of the finishing loop at index \<open>i\<close> of the context.\<close>

definition finish_one :: "real \<Rightarrow> coord \<Rightarrow> nat \<Rightarrow> sweep_state \<Rightarrow> error + sweep_state" where
  "finish_one eps limit i st =
     (case nth_chk (st_context st) i of
        Inl e \<Rightarrow> Inl e
      | Inr ci \<Rightarrow>
          if is_finished eps limit ci then
            (case winding_loop 0 (take i (st_context st))
                    (replicate (length (st_windings st)) 0) of
               Inl e \<Rightarrow> Inl e
             | Inr w \<Rightarrow>
                 (let r = ci\<lparr>s_windings := w\<rparr>;
                      (vs, vert) = find_vertex eps (st_vertices st) (s_tp r)
                  in case nth_chk (st_vix st) i of
                       Inl e \<Rightarrow> Inl e
                     | Inr vi \<Rightarrow>
                         if vert = vi then Inr (st\<lparr>st_vertices := vs, st_windings := w\<rparr>)
                         else
                           (let secs = st_sections st @ [r]
                            in case add_exit vs vi \<lparr>e_section = length secs - 1, e_other = vert\<rparr> of
                                 Inl e \<Rightarrow> Inl e
                               | Inr vs1 \<Rightarrow>
                                   (case add_enter vs1 vert
                                           \<lparr>e_section = length secs - 1, e_other = vi\<rparr> of
                                      Inl e \<Rightarrow> Inl e
                                    | Inr vs2 \<Rightarrow>
                                        Inr (st\<lparr>st_context := erase (st_context st) i,
                                                st_sections := secs,
                                                st_vix := erase (st_vix st) i,
                                                st_vertices := vs2,
                                                st_windings := w\<rparr>)))))
          else Inr st)"

text \<open>The finishing loop: \<open>i\<close> runs from the top of the context down to 0.\<close>

fun finish_loop :: "real \<Rightarrow> coord \<Rightarrow> nat \<Rightarrow> sweep_state \<Rightarrow> error + sweep_state" where
  "finish_loop eps limit 0 st = Inr st"
| "finish_loop eps limit (Suc i) st =
     (case finish_one eps limit i st of
        Inl e \<Rightarrow> Inl e
      | Inr st' \<Rightarrow> finish_loop eps limit i st')"

text \<open>
  One neighbour of the candidate. The candidate is read through its slot \<open>s_ix\<close> of
  \<open>st_monos\<close>, as the iterator \<^verbatim>\<open>s\<close> does.
\<close>

definition neighbour_step ::
  "env \<Rightarrow> Path list \<Rightarrow> Dim2 \<Rightarrow> nat \<Rightarrow> nat \<Rightarrow> coord \<times> coord \<Rightarrow> nat
   \<Rightarrow> sweep_state \<times> real list \<Rightarrow> error + (sweep_state \<times> real list)" where
  "neighbour_step E ps d s_ix context_ix si i stsp =
     (let st = fst stsp; this_splits = snd stsp
      in if i = context_ix then Inr (st, this_splits)
         else
           (case nth_chk (st_context st) i of
              Inl e \<Rightarrow> Inl e
            | Inr ci \<Rightarrow>
                if intersects si (CInterval (pt (s_fp ci) (other_dim d)) (pt (s_tp ci) (other_dim d)))
                then
                  (case nth_chk (st_monos st) s_ix of
                     Inl e \<Rightarrow> Inl e
                   | Inr s \<Rightarrow>
                  (case get ps (s_curve s) of
                     None \<Rightarrow> Inl OutOfBounds
                   | Some sc \<Rightarrow>
                  (case get ps (s_curve ci) of
                     None \<Rightarrow> Inl OutOfBounds
                   | Some cc \<Rightarrow>
                       (let xs = mono_intersect E sc (Interval (s_f s) (s_t s))
                                                  cc (Interval (s_f ci) (s_t ci))
                        in case split_section (EPSILON E) ps d ci (map snd xs) of
                             Inl e \<Rightarrow> Inl e
                           | Inr (ci', pieces) \<Rightarrow>
                               (case push_them E d pieces (st_monos st, st_monos_end st) of
                                  Inl e \<Rightarrow> Inl e
                                | Inr (m, e) \<Rightarrow>
                                    Inr (st\<lparr>st_context := (st_context st)[i := ci'],
                                            st_monos := m, st_monos_end := e\<rparr>,
                                         this_splits @ map fst xs))))))
                else Inr (st, this_splits)))"

fun neighbour_loop ::
  "env \<Rightarrow> Path list \<Rightarrow> Dim2 \<Rightarrow> nat \<Rightarrow> nat \<Rightarrow> coord \<times> coord \<Rightarrow> nat list
   \<Rightarrow> sweep_state \<times> real list \<Rightarrow> error + (sweep_state \<times> real list)" where
  "neighbour_loop E ps d s_ix context_ix si [] stsp = Inr stsp"
| "neighbour_loop E ps d s_ix context_ix si (i # is) stsp =
     (case neighbour_step E ps d s_ix context_ix si i stsp of
        Inl e \<Rightarrow> Inl e
      | Inr stsp' \<Rightarrow> neighbour_loop E ps d s_ix context_ix si is stsp')"

datatype step_result = Done Graph | Continue sweep_state "Section list"

text \<open>
  One iteration of the \<^verbatim>\<open>while(true)\<close> loop of \<^verbatim>\<open>sweep_graph\<close>. \<open>Continue\<close> carries the
  next state and the sorted copy of the heap that is appended to \<^verbatim>\<open>monoss\<close>.
\<close>

definition insert_at :: "'a list \<Rightarrow> nat \<Rightarrow> 'a \<Rightarrow> 'a list" where
  "insert_at xs i x = take i xs @ x # drop i xs"

definition pop_candidate :: "env \<Rightarrow> Dim2 \<Rightarrow> sweep_state \<Rightarrow> error + (sweep_state \<times> coord)" where
  "pop_candidate E d st =
     (if st_monos_end st \<noteq> 0 then
        (let e = st_monos_end st;
             m = pop_heap E (HeapSorter d) (take e (st_monos st)) @ drop e (st_monos st)
         in case nth_chk m (e - 1) of
              Inl err \<Rightarrow> Inl err
            | Inr s \<Rightarrow> Inr (st\<lparr>st_monos := m, st_monos_end := e - 1\<rparr>, pt (s_fp s) d))
      else Inr (st, Fin (0 / 1)))"

definition insert_candidate ::
  "env \<Rightarrow> Path list \<Rightarrow> Dim2 \<Rightarrow> sweep_state \<Rightarrow> error + step_result" where
  "insert_candidate E ps d st =
     (let s_ix = st_monos_end st
      in case nth_chk (st_monos st) s_ix of
           Inl e \<Rightarrow> Inl e
         | Inr s \<Rightarrow>
        (case lower_bound (\<lambda>c. SectionSorter (EPSILON E) ps (other_dim d) False c s)
                 (st_context st) of
           Inl e \<Rightarrow> Inl e
         | Inr context_ix \<Rightarrow>
             (let (vs, v) = find_vertex (EPSILON E) (st_vertices st) (s_fp s);
                  st1 = st\<lparr>st_context := insert_at (st_context st) context_ix s,
                          st_vix := insert_at (st_vix st) context_ix v,
                          st_vertices := vs\<rparr>;
                  si = CInterval (pt (s_fp s) (other_dim d)) (pt (s_tp s) (other_dim d))
              in case neighbour_loop E ps d s_ix context_ix si
                        [0..<length (st_context st1)] (st1, []) of
                   Inl e \<Rightarrow> Inl e
                 | Inr (st2, this_splits) \<Rightarrow>
                (case nth_chk (st_context st2) context_ix of
                   Inl e \<Rightarrow> Inl e
                 | Inr c \<Rightarrow>
                (case split_section (EPSILON E) ps d c this_splits of
                   Inl e \<Rightarrow> Inl e
                 | Inr (c', pieces) \<Rightarrow>
                (case push_them E d pieces (st_monos st2, st_monos_end st2) of
                   Inl e \<Rightarrow> Inl e
                 | Inr (m, e) \<Rightarrow>
                     Inr (Continue
                            (st2\<lparr>st_context := (st_context st2)[context_ix := c'],
                                 st_monos := m, st_monos_end := e\<rparr>)
                            (sort_heap E (HeapSorter d) (take e m)))))))))"

definition sweep_step :: "env \<Rightarrow> Path list \<Rightarrow> Dim2 \<Rightarrow> sweep_state \<Rightarrow> error + step_result" where
  "sweep_step E ps d st =
     (case pop_candidate E d st of
        Inl e \<Rightarrow> Inl e
      | Inr (st1, limit) \<Rightarrow>
          (case finish_loop (EPSILON E) limit (length (st_context st1)) st1 of
             Inl e \<Rightarrow> Inl e
           | Inr st2 \<Rightarrow>
               if st_monos_end st2 = 0
               then Inr (Done \<lparr>vertices = st_vertices st2, sections = st_sections st2\<rparr>)
               else insert_candidate E ps d st2))"

text \<open>
  The loop, with fuel: \<open>None\<close> is the loop still running when the fuel is spent. An error
  ends the run; the trace buffers are returned beside the outcome.
\<close>

fun sweep_loop ::
  "nat \<Rightarrow> env \<Rightarrow> Path list \<Rightarrow> Dim2 \<Rightarrow> sweep_state \<Rightarrow> globals
   \<Rightarrow> ((error + Graph) \<times> globals) option" where
  "sweep_loop 0 E ps d st g = None"
| "sweep_loop (Suc n) E ps d st g =
     (case sweep_step E ps d st of
        Inl e \<Rightarrow> Some (Inl e, g)
      | Inr (Done gr) \<Rightarrow> Some (Inr gr, g)
      | Inr (Continue st' rem) \<Rightarrow>
          sweep_loop n E ps d st'
            (g\<lparr>monoss := monoss g @ [rem], contexts := contexts g @ [st_context st']\<rparr>))"

definition init_state :: "env \<Rightarrow> Path list \<Rightarrow> Dim2 \<Rightarrow> sweep_state" where
  "init_state E ps d =
     (let monos = make_heap E (HeapSorter d) (mono_sections (EPSILON E) ps)
      in \<lparr>st_context = [], st_sections = [], st_monos = monos, st_monos_end = length monos,
          st_vix = [], st_vertices = [], st_windings = replicate (length ps) 0\<rparr>)"

definition sweep_graph ::
  "nat \<Rightarrow> env \<Rightarrow> Path list \<Rightarrow> Dim2 \<Rightarrow> real \<Rightarrow> globals \<Rightarrow> ((error + Graph) \<times> globals) option" where
  "sweep_graph fuel E ps d tol g = sweep_loop fuel E ps d (init_state E ps d) g"

section \<open>Concrete inputs\<close>

text \<open>A straight segment from \<open>p\<close> to \<open>q\<close>, with the curve operations of a line.\<close>

definition line :: "real \<times> real \<Rightarrow> real \<times> real \<Rightarrow> Curve" where
  "line p q =
     \<lparr>pointAt = (\<lambda>u. (Fin (fst p + u * (fst q - fst p)), Fin (snd p + u * (snd q - snd p)))),
      unitTangentAt =
        (\<lambda>u. (Fin ((fst q - fst p) / sqrt ((fst q - fst p)\<^sup>2 + (snd q - snd p)\<^sup>2)),
              Fin ((snd q - snd p) / sqrt ((fst q - fst p)\<^sup>2 + (snd q - snd p)\<^sup>2)))),
      roots =
        (\<lambda>v d. case v of
                 Fin r \<Rightarrow>
                   (let a = (case d of X \<Rightarrow> fst p | Y \<Rightarrow> snd p);
                        b = (case d of X \<Rightarrow> fst q | Y \<Rightarrow> snd q)
                    in if a = b then []
                       else if 0 \<le> (r - a) / (b - a) \<and> (r - a) / (b - a) \<le> 1
                       then [(r - a) / (b - a)] else [])
               | _ \<Rightarrow> []),
      deriv_roots = (\<lambda>v d. [])\<rparr>"

text \<open>
  The arc \<open>(u, u (2 a - u))\<close> for \<open>a = 1 - 1/200000\<close>: its second coordinate turns at
  the parameter \<open>a\<close>, just before the end of the segment.
\<close>

definition late_turn :: Curve where
  "late_turn =
     (let a = 1 - 1 / 200000 in
      \<lparr>pointAt = (\<lambda>u. (Fin u, Fin (u * (2 * a - u)))),
       unitTangentAt =
         (\<lambda>u. (Fin (1 / sqrt (1 + (2 * (a - u))\<^sup>2)),
               Fin (2 * (a - u) / sqrt (1 + (2 * (a - u))\<^sup>2)))),
       roots =
         (\<lambda>v d. case v of
                  Fin r \<Rightarrow>
                    (case d of
                       X \<Rightarrow> (if 0 \<le> r \<and> r \<le> 1 then [r] else [])
                     | Y \<Rightarrow> filter (\<lambda>u. 0 \<le> u \<and> u \<le> 1 \<and> r \<le> a\<^sup>2)
                                   [a - sqrt (a\<^sup>2 - r), a + sqrt (a\<^sup>2 - r)])
                | _ \<Rightarrow> []),
       deriv_roots =
         (\<lambda>v d. case v of
                  Fin r \<Rightarrow>
                    (case d of
                       X \<Rightarrow> []
                     | Y \<Rightarrow> (if 0 \<le> a - r / 2 \<and> a - r / 2 \<le> 1 then [a - r / 2] else []))
                | _ \<Rightarrow> [])\<rparr>)"

text \<open>A priority queue kept as an unordered range: popping moves a top element to the end.\<close>

fun extract_top ::
  "(Section \<Rightarrow> Section \<Rightarrow> bool) \<Rightarrow> Section \<Rightarrow> Section list \<Rightarrow> Section list \<times> Section" where
  "extract_top cmp b [] = ([], b)"
| "extract_top cmp b (y # ys) =
     (if cmp b y then (b # fst (extract_top cmp y ys), snd (extract_top cmp y ys))
      else (y # fst (extract_top cmp b ys), snd (extract_top cmp b ys)))"

definition list_pop_heap :: "(Section \<Rightarrow> Section \<Rightarrow> bool) \<Rightarrow> Section list \<Rightarrow> Section list" where
  "list_pop_heap cmp xs =
     (case xs of [] \<Rightarrow> [] | x # r \<Rightarrow> fst (extract_top cmp x r) @ [snd (extract_top cmp x r)])"

text \<open>An environment for inputs whose pieces do not cross.\<close>

definition list_env :: env where
  "list_env =
     \<lparr>EPSILON = 1 / 100000, mono_intersect = (\<lambda>a ia b ib. []),
      make_heap = (\<lambda>cmp xs. xs), pop_heap = list_pop_heap,
      push_heap = (\<lambda>cmp xs. xs), sort_heap = (\<lambda>cmp xs. xs)\<rparr>"

definition g0 :: globals where
  "g0 = \<lparr>monoss = [], contexts = []\<rparr>"

section \<open>The specification's wording, for comparison\<close>

text \<open>
  The finishing test as the specification words it: the trailing coordinate along the
  sweep axis \<open>d\<close> is at most the sweep position, within tolerance.
\<close>

definition spec_finished :: "real \<Rightarrow> Dim2 \<Rightarrow> coord \<Rightarrow> Section \<Rightarrow> bool" where
  "spec_finished eps d limit c =
     (c_less (pt (s_tp c) d) limit \<or> c_near eps (pt (s_tp c) d) limit)"

text \<open>
  The winding rule as the specification words it: a lower section with \<open>f > t\<close> decrements
  the count of its own path.
\<close>

definition spec_winding_step :: "Section \<Rightarrow> int list \<Rightarrow> int list" where
  "spec_winding_step cj w =
     (let k = path (s_curve cj);
          w1 = (if k \<ge> length w then w @ replicate (k + 1 - length w) 0 else w)
      in if c_eq (pt (s_fp cj) X) (pt (s_tp cj) X) then w1
         else if s_f cj < s_t cj then w1[k := w1 ! k + 1]
         else if s_f cj > s_t cj then w1[k := w1 ! k - 1]
         else w1)"

definition spec_winding :: "Section list \<Rightarrow> int list \<Rightarrow> int list" where
  "spec_winding cs w = foldl (\<lambda>w c. spec_winding_step c w) w cs"

text \<open>
  The probe parameter and the root-or-midpoint parameter of \<^verbatim>\<open>SectionSorter::operator()\<close>.
\<close>

definition probe :: "Section \<Rightarrow> real" where
  "probe s = (if s_f s > s_t s then s_f s - 1 / 100 else s_f s + 1 / 100)"

definition root_or_mid :: "Path list \<Rightarrow> Section \<Rightarrow> coord \<Rightarrow> Dim2 \<Rightarrow> error + real" where
  "root_or_mid ps s v d =
     (case section_root ps s v d of
        Inl e \<Rightarrow> Inl e
      | Inr r \<Rightarrow> Inr (if r = - 1 then (s_t s + s_f s) / 2 else r))"

text \<open>
  The comparator on overlapping boxes as the specification words it: coincidence of the
  leading points and the shared value are both taken on the perpendicular axis \<open>dm\<close>.
\<close>

definition spec_overlap_order ::
  "real \<Rightarrow> Path list \<Rightarrow> Dim2 \<Rightarrow> Section \<Rightarrow> Section \<Rightarrow> error + bool" where
  "spec_overlap_order eps ps dm a b =
     (if c_near eps (pt (s_fp a) dm) (pt (s_fp b) dm)
      then section_order eps ps dm a (probe a) b (probe b)
      else if c_less (pt (s_fp a) dm) (pt (s_fp b) dm) then
        (case root_or_mid ps a (pt (s_fp b) dm) dm of
           Inl e \<Rightarrow> Inl e
         | Inr ta \<Rightarrow> section_order eps ps dm a ta b (s_f b))
      else
        (case root_or_mid ps b (pt (s_fp a) dm) dm of
           Inl e \<Rightarrow> Inl e
         | Inr tb \<Rightarrow> section_order eps ps dm a (s_f a) b tb))"

text \<open>The comparator's choice on overlapping boxes, as the code makes it.\<close>

definition overlap_order ::
  "real \<Rightarrow> Path list \<Rightarrow> Dim2 \<Rightarrow> Section \<Rightarrow> Section \<Rightarrow> error + bool" where
  "overlap_order eps ps dm a b =
     (if c_near eps (pt (s_fp a) (other_dim dm)) (pt (s_fp b) (other_dim dm))
      then section_order eps ps dm a (probe a) b (probe b)
      else if c_less (pt (s_fp a) (other_dim dm)) (pt (s_fp b) (other_dim dm)) then
        (case root_or_mid ps a (pt (s_fp b) (other_dim dm)) (other_dim dm) of
           Inl e \<Rightarrow> Inl e
         | Inr ta \<Rightarrow> section_order eps ps dm a ta b (s_f b))
      else
        (case root_or_mid ps b (pt (s_fp a) (other_dim dm)) (other_dim dm) of
           Inl e \<Rightarrow> Inl e
         | Inr tb \<Rightarrow> section_order eps ps dm a (s_f a) b tb))"

text \<open>Sections used as concrete inputs.\<close>

definition sec_a :: Section where
  "sec_a = \<lparr>s_curve = \<lparr>path = 0, ix = 0\<rparr>, s_f = 0, s_t = 1,
            s_fp = (Fin 0, Fin 0), s_tp = (Fin 3, Fin 4), s_windings = []\<rparr>"

definition sec_b :: Section where
  "sec_b = \<lparr>s_curve = \<lparr>path = 1, ix = 0\<rparr>, s_f = 0, s_t = 1,
            s_fp = (Fin 1, Fin 0), s_tp = (Fin 6, Fin 12), s_windings = []\<rparr>"

definition ps_ab :: "Path list" where
  "ps_ab = [[line (0, 0) (3, 4)], [line (1, 0) (6, 12)]]"

text \<open>A segment whose second coordinate is not a number.\<close>

definition nan_height :: Curve where
  "nan_height =
     \<lparr>pointAt = (\<lambda>u. (Fin u, NaN)), unitTangentAt = (\<lambda>u. (NaN, NaN)),
      roots = (\<lambda>v d. case v of
                 Fin r \<Rightarrow> (case d of X \<Rightarrow> (if 0 \<le> r \<and> r \<le> 1 then [r] else []) | Y \<Rightarrow> [])
               | _ \<Rightarrow> []),
      deriv_roots = (\<lambda>v d. [])\<rparr>"

section \<open>Invariants of the registry\<close>

definition all_exits :: "Vertex list \<Rightarrow> Edge list" where
  "all_exits vs = concat (map exits vs)"

definition all_enters :: "Vertex list \<Rightarrow> Edge list" where
  "all_enters vs = concat (map enters vs)"

text \<open>
  A section starts at a vertex when the vertex's point is within tolerance of the
  section's leading point, and ends at it when it is within tolerance of the trailing
  point. A point with a non-finite coordinate is within tolerance of no point.
\<close>

definition starts_at :: "real \<Rightarrow> Point \<Rightarrow> Section \<Rightarrow> bool" where
  "starts_at eps p s = (pt_finite (s_fp s) \<longrightarrow> pt_near eps p (s_fp s))"

definition ends_at :: "real \<Rightarrow> Point \<Rightarrow> Section \<Rightarrow> bool" where
  "ends_at eps p s = (pt_finite (s_tp s) \<longrightarrow> pt_near eps p (s_tp s))"

text \<open>
  An edge of section \<open>e_section e\<close> between the vertices \<open>v0\<close> (start) and \<open>v1\<close> (end):
  all three indices are in range and the section starts at \<open>v0\<close> and ends at \<open>v1\<close>.
\<close>

definition edge_ok :: "real \<Rightarrow> Point list \<Rightarrow> Section list \<Rightarrow> nat \<Rightarrow> nat \<Rightarrow> Edge \<Rightarrow> bool" where
  "edge_ok eps pts ss v0 v1 e =
     (e_section e < length ss \<and> v0 < length pts \<and> v1 < length pts
      \<and> starts_at eps (pts ! v0) (ss ! e_section e)
      \<and> ends_at eps (pts ! v1) (ss ! e_section e))"

definition graph_ok :: "real \<Rightarrow> Vertex list \<Rightarrow> Section list \<Rightarrow> bool" where
  "graph_ok eps vs ss =
     (mset (map e_section (all_exits vs)) = mset [0..<length ss]
      \<and> mset (map e_section (all_enters vs)) = mset [0..<length ss]
      \<and> (\<forall>v<length vs.
            (\<forall>e\<in>set (exits (vs ! v)). edge_ok eps (map avg vs) ss v (e_other e) e)
          \<and> (\<forall>e\<in>set (enters (vs ! v)). edge_ok eps (map avg vs) ss (e_other e) v e)))"

definition ctx_ok :: "real \<Rightarrow> Point list \<Rightarrow> nat list \<Rightarrow> Section list \<Rightarrow> bool" where
  "ctx_ok eps pts vix ctx =
     list_all2 (\<lambda>v c. v < length pts \<and> starts_at eps (pts ! v) c) vix ctx"

definition edge_inv :: "real \<Rightarrow> sweep_state \<Rightarrow> bool" where
  "edge_inv eps st =
     (ctx_ok eps (map avg (st_vertices st)) (st_vix st) (st_context st)
      \<and> graph_ok eps (st_vertices st) (st_sections st))"

text \<open>Two disjoint segments, the graph of their sweep and the trace it leaves.\<close>

definition ps_two :: "Path list" where
  "ps_two = [[line (0, 0) (1, 1)], [line (2, 0) (3, 1)]]"

definition graph_two :: Graph where
  "graph_two =
     \<lparr>vertices =
        [\<lparr>enters = [], exits = [\<lparr>e_section = 0, e_other = 1\<rparr>], avg = (Fin 0, Fin 0)\<rparr>,
         \<lparr>enters = [\<lparr>e_section = 0, e_other = 0\<rparr>], exits = [], avg = (Fin 1, Fin 1)\<rparr>],
      sections =
        [\<lparr>s_curve = \<lparr>path = 0, ix = 0\<rparr>, s_f = 0, s_t = 1,
          s_fp = (Fin 0, Fin 0), s_tp = (Fin 1, Fin 1), s_windings = [0, 0]\<rparr>]\<rparr>"

definition trace_two :: globals where
  "trace_two =
     \<lparr>monoss =
        [[\<lparr>s_curve = \<lparr>path = 1, ix = 0\<rparr>, s_f = 0, s_t = 1,
           s_fp = (Fin 2, Fin 0), s_tp = (Fin 3, Fin 1), s_windings = []\<rparr>]],
      contexts =
        [[\<lparr>s_curve = \<lparr>path = 0, ix = 0\<rparr>, s_f = 0, s_t = 1,
           s_fp = (Fin 0, Fin 0), s_tp = (Fin 1, Fin 1), s_windings = []\<rparr>]]\<rparr>"

section \<open>Evaluation on concrete inputs\<close>

lemmas sweep_defs = sweep_graph_def init_state_def mono_sections_def mono_splits_def
  process_splits_def are_near_def mk_Section_def lexo_point_def line_def list_env_def g0_def
  sweep_step_def pop_candidate_def list_pop_heap_def HeapSorter_def nth_chk_def
  finish_one_def is_finished_def find_vertex_def pt_near_def mk_Vertex_def
  add_exit_def add_enter_def erase_def insert_candidate_def lower_bound_def
  lower_bound_loop.simps SectionSorter_def bbox_def CInterval_def c_le_def c_ge_def
  intersects_def c_contains_def insert_at_def split_section_def get_def set_to_def
  neighbour_step_def section_order_def section_root_def Interval_def contains_def
  winding_step_def Let_def upt_rec eval_nat_numeral

section \<open>Claims settled by evaluation\<close>

text \<open>
  Claim C5. The decomposer is documented to return a sorted list of cuts that includes 0
  and 1. For the arc \<open>late_turn\<close> the derivative has the single root \<open>1 - 1/200000\<close>,
  which lies within tolerance of 1: \<^verbatim>\<open>std::unique\<close> keeps the root and drops 1, the trailing
  trim then finds no element equal to 1 and empties the list. The decomposer returns no
  cut at all, so neither 0 nor 1.
\<close>

theorem mono_splits_loses_endpoints:
  "deriv_roots late_turn (Fin 0) X @ deriv_roots late_turn (Fin 0) Y = [1 - 1 / 200000]
   \<and> mono_splits (1 / 100000) late_turn = []"
  by (simp add: mono_splits_def late_turn_def process_splits_def are_near_def Let_def)

text \<open>
  Claim C6. For the section \<open>sec_a\<close> with interval \<open>[0, 1]\<close> and the single raw cut
  \<open>1 - 1/200000\<close>, the cleaned sequence is empty, and the read of its second element in
  \<^verbatim>\<open>split_section\<close> is out of bounds.
\<close>

theorem split_section_second_cut_out_of_bounds:
  "process_splits (1 / 100000) [1 - 1 / 200000] (s_f sec_a) (s_t sec_a) = []
   \<and> split_section (1 / 100000) ps_ab X sec_a [1 - 1 / 200000] = Inl OutOfBounds"
  by (simp add: split_section_def process_splits_def are_near_def Let_def sec_a_def ps_ab_def
      get_def)

text \<open>
  Claim C1. Path 0 runs \<open>(0,0) \<rightarrow> (10,1) \<rightarrow> (0,3)\<close>, path 1 runs
  \<open>(1,5) \<rightarrow> (2,6) \<rightarrow> (3,5)\<close>. When the first section of path 1 is finished, the two
  sections of path 0 lie below it: the first with \<open>f < t\<close>, the second, at context index 1,
  with \<open>f > t\<close>. The code decrements the entry at the context index, so the winding vector
  is \<open>[1, -1]\<close>; decrementing the entry of the section's own path gives \<open>[0, 0]\<close>.
\<close>

theorem winding_decrement_uses_context_index:
  "map_option fst (sweep_graph 4 list_env
     [[line (0, 0) (10, 1), line (10, 1) (0, 3)], [line (1, 5) (2, 6), line (2, 6) (3, 5)]]
     X 1 g0)
   = Some (Inr \<lparr>vertices =
          [\<lparr>enters = [], exits = [], avg = (Fin 0, Fin 0)\<rparr>,
           \<lparr>enters = [], exits = [], avg = (Fin 0, Fin 3)\<rparr>,
           \<lparr>enters = [], exits = [\<lparr>e_section = 0, e_other = 3\<rparr>], avg = (Fin 1, Fin 5)\<rparr>,
           \<lparr>enters = [\<lparr>e_section = 0, e_other = 2\<rparr>], exits = [], avg = (Fin 2, Fin 6)\<rparr>],
          sections =
            [\<lparr>s_curve = \<lparr>path = 1, ix = 0\<rparr>, s_f = 0, s_t = 1,
                s_fp = (Fin 1, Fin 5), s_tp = (Fin 2, Fin 6), s_windings = [1, - 1]\<rparr>]\<rparr>)
   \<and> spec_winding
        [\<lparr>s_curve = \<lparr>path = 0, ix = 0\<rparr>, s_f = 0, s_t = 1,
             s_fp = (Fin 0, Fin 0), s_tp = (Fin 10, Fin 1), s_windings = []\<rparr>,
         \<lparr>s_curve = \<lparr>path = 0, ix = 1\<rparr>, s_f = 1, s_t = 0,
             s_fp = (Fin 0, Fin 3), s_tp = (Fin 10, Fin 1), s_windings = []\<rparr>] [0, 0] = [0, 0]"
  by (simp add: sweep_defs spec_winding_def spec_winding_step_def)

text \<open>
  Claim C2. Under a sweep along \<open>Y\<close> the sweep position is read along \<open>Y\<close>, but the
  finishing test reads the trailing point's \<open>X\<close> coordinate. With the segments
  \<open>(0,0) \<rightarrow> (5,1)\<close> and \<open>(0,2) \<rightarrow> (1,3)\<close> the first section has trailing \<open>Y\<close> coordinate 1,
  below the sweep position 2 of the second step, yet it is not finished: its \<open>X\<close>
  coordinate 5 is compared, and the graph holds no section.
\<close>

theorem finish_test_reads_X_under_Y_sweep:
  "map_option fst (sweep_graph 2 list_env [[line (0, 0) (5, 1)], [line (0, 2) (1, 3)]] Y 1 g0)
   = Some (Inr \<lparr>vertices = [\<lparr>enters = [], exits = [], avg = (Fin 0, Fin 0)\<rparr>], sections = []\<rparr>)
   \<and> \<not> is_finished (1 / 100000) (Fin 2)
        \<lparr>s_curve = \<lparr>path = 0, ix = 0\<rparr>, s_f = 0, s_t = 1,
         s_fp = (Fin 0, Fin 0), s_tp = (Fin 5, Fin 1), s_windings = []\<rparr>
   \<and> spec_finished (1 / 100000) Y (Fin 2)
        \<lparr>s_curve = \<lparr>path = 0, ix = 0\<rparr>, s_f = 0, s_t = 1,
         s_fp = (Fin 0, Fin 0), s_tp = (Fin 5, Fin 1), s_windings = []\<rparr>"
  by (simp add: sweep_defs spec_finished_def)

text \<open>
  Claim C4. The first path is a segment shorter than the tolerance, so its trailing point
  resolves to its leading vertex. In the second step it is finished and skipped by
  \<^verbatim>\<open>continue\<close>, which also skips its removal: the context recorded at the end of that step
  still holds it, below the newly inserted section. In the third step it is counted as a
  section below the one being finished, whose winding vector becomes \<open>[1, 0, 0]\<close>.
\<close>

theorem degenerate_section_stays_in_context:
  "map_option (\<lambda>r. map (map s_curve) (contexts (snd r)))
     (sweep_graph 3 list_env
        [[line (0, 0) (1 / 10000000, 1 / 10000000)], [line (2, 5) (3, 6)], [line (4, 5) (5, 6)]]
        X 1 g0)
   = Some [[\<lparr>path = 0, ix = 0\<rparr>], [\<lparr>path = 0, ix = 0\<rparr>, \<lparr>path = 1, ix = 0\<rparr>]]
   \<and> map_option (\<lambda>r. case fst r of Inr gr \<Rightarrow> map s_windings (sections gr) | Inl e \<Rightarrow> [])
     (sweep_graph 3 list_env
        [[line (0, 0) (1 / 10000000, 1 / 10000000)], [line (2, 5) (3, 6)], [line (4, 5) (5, 6)]]
        X 1 g0)
   = Some [[1, 0, 0]]"
  by (simp add: sweep_defs)

section \<open>The context order on overlapping boxes\<close>

text \<open>
  Claim C3, as stated, fails. The sections \<open>sec_a\<close> and \<open>sec_b\<close> overlap on both axes
  and their leading points coincide on the perpendicular axis \<open>Y\<close> (both start at height
  0) but not on the sweep axis \<open>X\<close>. The comparator does not probe: it locates the sweep
  coordinate 1 of \<open>sec_b\<close>'s leading point on \<open>sec_a\<close> and answers \<open>False\<close>, where the
  probe comparison of the claim answers \<open>True\<close>.
\<close>

theorem SectionSorter_not_perpendicular_coincidence:
  "SectionSorter (1 / 100000) ps_ab Y False sec_a sec_b = Inr False
   \<and> spec_overlap_order (1 / 100000) ps_ab Y sec_a sec_b = Inr True"
  by (simp add: sweep_defs spec_overlap_order_def probe_def root_or_mid_def sec_a_def
      sec_b_def ps_ab_def)

text \<open>
  Claim C3, amended. For two distinct sections whose boxes overlap on the perpendicular
  axis \<open>dm\<close> and intersect on the sweep axis, the comparator tests the coincidence of the
  leading points on the sweep axis. When they coincide within tolerance it compares the
  probe points, 0.01 of parameter past each leading point; otherwise it compares at the
  sweep coordinate of the later leading point, located on the other section by root
  finding over that section's parameter interval (the middle of the interval when there
  is no root).
\<close>

theorem SectionSorter_overlap:
  assumes "\<not> c_le (snd (bbox a dm)) (fst (bbox b dm))"
    and "\<not> c_le (snd (bbox b dm)) (fst (bbox a dm))"
    and "intersects (bbox a (other_dim dm)) (bbox b (other_dim dm))"
  shows "SectionSorter eps ps dm False a b = overlap_order eps ps dm a b"
  using assms
  by (simp add: SectionSorter_def overlap_order_def probe_def root_or_mid_def Let_def
      split: sum.splits)

theorem SectionSorter_overlap_witness:
  "\<not> c_le (snd (bbox sec_a Y)) (fst (bbox sec_b Y))
   \<and> \<not> c_le (snd (bbox sec_b Y)) (fst (bbox sec_a Y))
   \<and> intersects (bbox sec_a (other_dim Y)) (bbox sec_b (other_dim Y))
   \<and> SectionSorter (1 / 100000) ps_ab Y False sec_a sec_b
       = overlap_order (1 / 100000) ps_ab Y sec_a sec_b
   \<and> overlap_order (1 / 100000) ps_ab Y sec_a sec_b = Inr False"
proof -
  have h1: "\<not> c_le (snd (bbox sec_a Y)) (fst (bbox sec_b Y))"
    by (simp add: bbox_def CInterval_def c_le_def sec_a_def sec_b_def)
  have h2: "\<not> c_le (snd (bbox sec_b Y)) (fst (bbox sec_a Y))"
    by (simp add: bbox_def CInterval_def c_le_def sec_a_def sec_b_def)
  have h3: "intersects (bbox sec_a (other_dim Y)) (bbox sec_b (other_dim Y))"
    by (simp add: bbox_def CInterval_def c_le_def intersects_def c_contains_def
        sec_a_def sec_b_def)
  have h4: "overlap_order (1 / 100000) ps_ab Y sec_a sec_b = Inr False"
    by (simp add: sweep_defs overlap_order_def probe_def root_or_mid_def sec_a_def
        sec_b_def ps_ab_def)
  show ?thesis
    using h1 h2 h3 h4 SectionSorter_overlap [OF h1 h2 h3, of "1 / 100000" ps_ab] by simp
qed

section \<open>Determinism\<close>



section \<open>Non-finite input\<close>

text \<open>
  Claim C9, as stated, fails. The first input curve has a second coordinate that is not a
  number. The sweep reports no error: it runs its steps, registers vertices for the
  curve's end points and returns a graph whose one finished section is that curve.
\<close>

theorem sweep_graph_accepts_non_finite:
  "\<not> pt_finite (pointAt nan_height 0) \<and>
   map_option fst (sweep_graph 2 list_env [[nan_height], [line (2, 0) (3, 1)]] X 1 g0)
   = Some (Inr \<lparr>vertices =
          [\<lparr>enters = [], exits = [\<lparr>e_section = 0, e_other = 1\<rparr>], avg = (Fin 0, NaN)\<rparr>,
           \<lparr>enters = [\<lparr>e_section = 0, e_other = 0\<rparr>], exits = [], avg = (Fin 1, NaN)\<rparr>],
          sections =
            [\<lparr>s_curve = \<lparr>path = 0, ix = 0\<rparr>, s_f = 0, s_t = 1,
                s_fp = (Fin 0, NaN), s_tp = (Fin 1, NaN), s_windings = [0, 0]\<rparr>]\<rparr>)"
  by (simp add: sweep_defs nan_height_def pt_finite_def)

lemma nth_chk_err: "nth_chk xs i = Inl e \<Longrightarrow> e = OutOfBounds"
  by (simp add: nth_chk_def split: if_splits)

lemma set_to_err: "set_to c d ti s = Inl e \<Longrightarrow> e = AssertionFailed"
  by (simp add: set_to_def Let_def split: if_splits)

lemma split_section_err: "split_section eps ps d s cuts = Inl e \<Longrightarrow> e \<noteq> InvalidGeometry"
  by (auto simp: split_section_def Let_def split: option.splits if_splits sum.splits
      dest: set_to_err)

lemma section_root_err: "section_root ps s v d = Inl e \<Longrightarrow> e \<noteq> InvalidGeometry"
  by (auto simp: section_root_def split: option.splits)

lemma section_order_err: "section_order eps ps dm a a_t b b_t = Inl e \<Longrightarrow> e \<noteq> InvalidGeometry"
  by (auto simp: section_order_def Let_def split: option.splits if_splits)

lemma SectionSorter_err: "SectionSorter eps ps dm same a b = Inl e \<Longrightarrow> e \<noteq> InvalidGeometry"
  by (auto simp: SectionSorter_def Let_def split: if_splits sum.splits
      dest: section_order_err section_root_err)

lemma lower_bound_loop_err:
  "lower_bound_loop cmp xs first len = Inl e \<Longrightarrow> e = OutOfBounds \<or> (\<exists>x. cmp x = Inl e)"
proof (induction cmp xs first len rule: lower_bound_loop.induct)
  case (1 cmp xs first len)
  let ?m = "first + len div 2"
  show ?case
  proof (cases "len = 0 \<or> \<not> ?m < length xs")
    case True
    with "1.prems" show ?thesis
      by (subst (asm) lower_bound_loop.simps) (auto split: if_splits)
  next
    case False
    then have a: "len \<noteq> 0" "?m < length xs" by auto
    show ?thesis
    proof (cases "cmp (xs ! ?m)")
      case (Inl x)
      with a "1.prems" show ?thesis
        by (subst (asm) lower_bound_loop.simps) auto
    next
      case (Inr b)
      show ?thesis
      proof (cases b)
        case True
        with a Inr "1.prems" have "lower_bound_loop cmp xs (?m + 1) (len - len div 2 - 1) = Inl e"
          by (subst (asm) lower_bound_loop.simps) simp
        with "1.IH"(1)[OF a Inr True] show ?thesis by simp
      next
        case False
        with a Inr "1.prems" have "lower_bound_loop cmp xs first (len div 2) = Inl e"
          by (subst (asm) lower_bound_loop.simps) simp
        with "1.IH"(2)[OF a Inr False] show ?thesis by simp
      qed
    qed
  qed
qed

lemma push_them_err: "push_them E d xs me = Inl e \<Longrightarrow> e \<noteq> InvalidGeometry"
  by (induction E d xs me rule: push_them.induct) (auto split: if_splits)

lemma winding_step_err: "winding_step j c w = Inl e \<Longrightarrow> e \<noteq> InvalidGeometry"
  by (auto simp: winding_step_def Let_def split: if_splits)

lemma winding_loop_err: "winding_loop j cs w = Inl e \<Longrightarrow> e \<noteq> InvalidGeometry"
  by (induction cs arbitrary: j w) (auto split: sum.splits dest: winding_step_err)

lemma add_exit_err: "add_exit vs v ed = Inl e \<Longrightarrow> e \<noteq> InvalidGeometry"
  by (auto simp: add_exit_def split: if_splits)

lemma add_enter_err: "add_enter vs v ed = Inl e \<Longrightarrow> e \<noteq> InvalidGeometry"
  by (auto simp: add_enter_def split: if_splits)

lemma finish_one_err: "finish_one eps limit i st = Inl e \<Longrightarrow> e \<noteq> InvalidGeometry"
  by (auto simp: finish_one_def Let_def split: sum.splits if_splits prod.splits
      dest: nth_chk_err winding_loop_err add_exit_err add_enter_err)

lemma finish_loop_err: "finish_loop eps limit n st = Inl e \<Longrightarrow> e \<noteq> InvalidGeometry"
  by (induction n arbitrary: st) (auto split: sum.splits dest: finish_one_err)

lemma neighbour_step_err:
  "neighbour_step E ps d s_ix cix si i stsp = Inl e \<Longrightarrow> e \<noteq> InvalidGeometry"
  by (auto simp: neighbour_step_def Let_def split: sum.splits if_splits prod.splits option.splits
      dest: nth_chk_err split_section_err push_them_err)

lemma neighbour_loop_err:
  "neighbour_loop E ps d s_ix cix si is stsp = Inl e \<Longrightarrow> e \<noteq> InvalidGeometry"
  by (induction "is" arbitrary: stsp) (auto split: sum.splits dest: neighbour_step_err)

lemma pop_candidate_err: "pop_candidate E d st = Inl e \<Longrightarrow> e \<noteq> InvalidGeometry"
  by (auto simp: pop_candidate_def Let_def split: sum.splits if_splits dest: nth_chk_err)

lemma lower_bound_err:
  "lower_bound (\<lambda>c. SectionSorter eps ps dm same c s) xs = Inl e \<Longrightarrow> e \<noteq> InvalidGeometry"
  unfolding lower_bound_def
  by (auto dest!: lower_bound_loop_err dest: SectionSorter_err)

lemma insert_candidate_err: "insert_candidate E ps d st = Inl e \<Longrightarrow> e \<noteq> InvalidGeometry"
  by (auto simp: insert_candidate_def Let_def split: sum.splits if_splits prod.splits
      dest: nth_chk_err lower_bound_err neighbour_loop_err split_section_err push_them_err)

lemma sweep_step_err: "sweep_step E ps d st = Inl e \<Longrightarrow> e \<noteq> InvalidGeometry"
  by (auto simp: sweep_step_def split: sum.splits if_splits prod.splits
      dest: pop_candidate_err finish_loop_err insert_candidate_err)

lemma sweep_loop_err: "sweep_loop n E ps d st g = Some (Inl e, g') \<Longrightarrow> e \<noteq> InvalidGeometry"
  by (induction n arbitrary: st g)
     (auto split: sum.splits step_result.splits dest: sweep_step_err)

text \<open>
  Claim C9, amended. The sweep makes no finiteness check: whatever the input, and so also
  when a curve contains a non-finite coordinate, it never reports \<open>InvalidGeometry\<close>.
  Its failures are the assertion of \<^verbatim>\<open>set_to\<close> and out-of-bounds accesses, both raised
  inside sweep steps.
\<close>

theorem sweep_graph_never_InvalidGeometry:
  "sweep_graph n E ps d tol g \<noteq> Some (Inl InvalidGeometry, g')"
  using sweep_loop_err[of n E ps d "init_state E ps d" g InvalidGeometry g']
  by (auto simp: sweep_graph_def)

section \<open>Edges of the returned graph\<close>

lemma pt_near_refl: "0 \<le> eps \<Longrightarrow> pt_finite p \<Longrightarrow> pt_near eps p p"
  by (cases p; cases "fst p"; cases "snd p") (auto simp: pt_near_def pt_finite_def are_near_def)

lemma find_near_le: "find_near eps vs p \<le> length vs"
  by (induction vs) auto

lemma find_near_near:
  "find_near eps vs p < length vs \<Longrightarrow> pt_near eps (avg (vs ! find_near eps vs p)) p"
  by (induction vs) (auto split: if_splits)

lemma find_vertex_cases:
  assumes "find_vertex eps vs p = (vs', i)"
  shows "(vs' = vs \<and> i < length vs \<and> pt_near eps (avg (vs ! i)) p)
       \<or> (vs' = vs @ [mk_Vertex p] \<and> i = length vs)"
  using assms find_near_le[of eps vs p] find_near_near[of eps vs p]
  by (auto simp: find_vertex_def Let_def split: if_splits)

lemma find_vertex_props:
  assumes "find_vertex eps vs p = (vs', i)" and "0 \<le> eps"
  shows "i < length vs'" and "\<exists>ext. vs' = vs @ ext \<and> all_exits ext = [] \<and> all_enters ext = []"
    and "pt_finite p \<longrightarrow> pt_near eps (map avg vs' ! i) p"
  using find_vertex_cases[OF assms(1)] assms(2)
  by (auto simp: mk_Vertex_def all_exits_def all_enters_def nth_append pt_near_refl)

lemma all_exits_append: "all_exits (xs @ ys) = all_exits xs @ all_exits ys"
  by (simp add: all_exits_def)

lemma all_enters_append: "all_enters (xs @ ys) = all_enters xs @ all_enters ys"
  by (simp add: all_enters_def)

lemma mset_all_exits_upd:
  assumes "v < length vs"
  shows "mset (all_exits (vs[v := (vs ! v)\<lparr>exits := exits (vs ! v) @ [e]\<rparr>]))
       = add_mset e (mset (all_exits vs))"
proof -
  have "vs = take v vs @ vs ! v # drop (Suc v) vs"
    using assms by (simp add: id_take_nth_drop)
  then have "mset (all_exits vs)
      = mset (all_exits (take v vs)) + mset (exits (vs ! v)) + mset (all_exits (drop (Suc v) vs))"
    by (metis all_exits_append all_exits_def concat.simps(2) list.simps(9) mset_append
        add.assoc)
  moreover have "mset (all_exits (vs[v := (vs ! v)\<lparr>exits := exits (vs ! v) @ [e]\<rparr>]))
      = mset (all_exits (take v vs)) + mset (exits (vs ! v) @ [e])
        + mset (all_exits (drop (Suc v) vs))"
    using assms by (simp add: upd_conv_take_nth_drop all_exits_def)
  ultimately show ?thesis by simp
qed

lemma mset_all_enters_upd:
  assumes "v < length vs"
  shows "mset (all_enters (vs[v := (vs ! v)\<lparr>enters := enters (vs ! v) @ [e]\<rparr>]))
       = add_mset e (mset (all_enters vs))"
proof -
  have "vs = take v vs @ vs ! v # drop (Suc v) vs"
    using assms by (simp add: id_take_nth_drop)
  then have "mset (all_enters vs)
      = mset (all_enters (take v vs)) + mset (enters (vs ! v)) + mset (all_enters (drop (Suc v) vs))"
    by (metis all_enters_append all_enters_def concat.simps(2) list.simps(9) mset_append
        add.assoc)
  moreover have "mset (all_enters (vs[v := (vs ! v)\<lparr>enters := enters (vs ! v) @ [e]\<rparr>]))
      = mset (all_enters (take v vs)) + mset (enters (vs ! v) @ [e])
        + mset (all_enters (drop (Suc v) vs))"
    using assms by (simp add: upd_conv_take_nth_drop all_enters_def)
  ultimately show ?thesis by simp
qed

lemma map_upd_same: "(map f vs)[v := f (vs ! v)] = map f vs"
  by (cases "v < length vs") (simp_all add: list_update_same_conv list_update_beyond)

lemma all_enters_upd_exits:
  "all_enters (vs[v := (vs ! v)\<lparr>exits := x\<rparr>]) = all_enters vs"
  by (simp add: all_enters_def map_update map_upd_same)

lemma all_exits_upd_enters:
  "all_exits (vs[v := (vs ! v)\<lparr>enters := x\<rparr>]) = all_exits vs"
  by (simp add: all_exits_def map_update map_upd_same)

lemma avg_upd_exits: "map avg (vs[v := (vs ! v)\<lparr>exits := x\<rparr>]) = map avg vs"
  by (simp add: map_update map_upd_same)

lemma avg_upd_enters: "map avg (vs[v := (vs ! v)\<lparr>enters := x\<rparr>]) = map avg vs"
  by (simp add: map_update map_upd_same)

lemma edge_ok_mono:
  "edge_ok eps pts ss v0 v1 e \<Longrightarrow> edge_ok eps (pts @ pts') (ss @ ss') v0 v1 e"
  by (auto simp: edge_ok_def nth_append)

lemma ctx_ok_mono: "ctx_ok eps pts vix ctx \<Longrightarrow> ctx_ok eps (pts @ pts') vix ctx"
  unfolding ctx_ok_def by (erule list_all2_mono) (auto simp: nth_append)

lemma split_section_fp: "split_section eps ps d s cuts = Inr (s', pieces) \<Longrightarrow> s_fp s' = s_fp s"
  by (auto simp: split_section_def set_to_def Let_def split: option.splits if_splits sum.splits)

lemma starts_at_fp: "s_fp s' = s_fp s \<Longrightarrow> starts_at eps p s' = starts_at eps p s"
  by (simp add: starts_at_def)

lemma ctx_ok_update:
  assumes "ctx_ok eps pts vix ctx" and "i < length ctx" and "s_fp c' = s_fp (ctx ! i)"
  shows "ctx_ok eps pts vix (ctx[i := c'])"
proof -
  have len: "length vix = length ctx"
    using assms(1) by (auto simp: ctx_ok_def dest: list_all2_lengthD)
  have "vix ! i < length pts \<and> starts_at eps (pts ! (vix ! i)) (ctx ! i)"
    using assms(1,2) len by (auto simp: ctx_ok_def dest: list_all2_nthD)
  then have "vix ! i < length pts \<and> starts_at eps (pts ! (vix ! i)) c'"
    using assms(3) by (simp add: starts_at_def)
  with assms(1) have "list_all2 (\<lambda>v c. v < length pts \<and> starts_at eps (pts ! v) c)
      (vix[i := vix ! i]) (ctx[i := c'])"
    unfolding ctx_ok_def by (intro list_all2_update_cong) auto
  then show ?thesis by (simp add: ctx_ok_def)
qed

lemma ctx_ok_insert:
  assumes "ctx_ok eps pts vix ctx" and "v < length pts" and "starts_at eps (pts ! v) c"
  shows "ctx_ok eps pts (insert_at vix i v) (insert_at ctx i c)"
  using assms unfolding ctx_ok_def insert_at_def
  by (auto intro!: list_all2_appendI list_all2_takeI list_all2_dropI)

lemma ctx_ok_erase:
  assumes "ctx_ok eps pts vix ctx"
  shows "ctx_ok eps pts (erase vix i) (erase ctx i)"
  using assms unfolding ctx_ok_def erase_def
  by (auto intro!: list_all2_appendI list_all2_takeI list_all2_dropI)

lemma ctx_ok_nth:
  assumes "ctx_ok eps pts vix ctx" and "i < length ctx"
  shows "length vix = length ctx" and "vix ! i < length pts"
    and "starts_at eps (pts ! (vix ! i)) (ctx ! i)"
  using assms by (auto simp: ctx_ok_def dest: list_all2_lengthD list_all2_nthD2)

lemma graph_ok_ext:
  assumes "graph_ok eps vs ss" and "all_exits ext = []" and "all_enters ext = []"
  shows "graph_ok eps (vs @ ext) ss"
proof -
  have none: "\<And>x. x \<in> set ext \<Longrightarrow> exits x = [] \<and> enters x = []"
    using assms(2,3) by (auto simp: all_exits_def all_enters_def)
  have old: "\<And>v e v0 v1. edge_ok eps (map avg vs) ss v0 v1 e
      \<Longrightarrow> edge_ok eps (map avg (vs @ ext)) ss v0 v1 e"
    using edge_ok_mono[where ss' = "[]"] by simp
  show ?thesis
    unfolding graph_ok_def
  proof (intro conjI allI impI)
    show "mset (map e_section (all_exits (vs @ ext))) = mset [0..<length ss]"
      using assms(1,2) by (simp add: graph_ok_def all_exits_append)
    show "mset (map e_section (all_enters (vs @ ext))) = mset [0..<length ss]"
      using assms(1,3) by (simp add: graph_ok_def all_enters_append)
  next
    fix v assume v: "v < length (vs @ ext)"
    show "\<forall>e\<in>set (exits ((vs @ ext) ! v)). edge_ok eps (map avg (vs @ ext)) ss v (e_other e) e"
    proof (cases "v < length vs")
      case True
      with assms(1) old show ?thesis by (auto simp: graph_ok_def nth_append)
    next
      case False
      with v have "(vs @ ext) ! v \<in> set ext" by (simp add: nth_append)
      with none show ?thesis by simp
    qed
    show "\<forall>e\<in>set (enters ((vs @ ext) ! v)). edge_ok eps (map avg (vs @ ext)) ss (e_other e) v e"
    proof (cases "v < length vs")
      case True
      with assms(1) old show ?thesis by (auto simp: graph_ok_def nth_append)
    next
      case False
      with v have "(vs @ ext) ! v \<in> set ext" by (simp add: nth_append)
      with none show ?thesis by simp
    qed
  qed
qed

lemma graph_ok_add_edge:
  assumes ok: "graph_ok eps vs ss"
    and v0: "v0 < length vs" and v1: "v1 < length vs"
    and st: "starts_at eps (map avg vs ! v0) r" and en: "ends_at eps (map avg vs ! v1) r"
    and a1: "add_exit vs v0 \<lparr>e_section = length ss, e_other = v1\<rparr> = Inr vs1"
    and a2: "add_enter vs1 v1 \<lparr>e_section = length ss, e_other = v0\<rparr> = Inr vs2"
  shows "graph_ok eps vs2 (ss @ [r])" and "map avg vs2 = map avg vs"
proof -
  let ?e1 = "\<lparr>e_section = length ss, e_other = v1\<rparr>"
  let ?e2 = "\<lparr>e_section = length ss, e_other = v0\<rparr>"
  have vs1: "vs1 = vs[v0 := (vs ! v0)\<lparr>exits := exits (vs ! v0) @ [?e1]\<rparr>]"
    using a1 v0 by (simp add: add_exit_def)
  have len1: "length vs1 = length vs" by (simp add: vs1)
  have vs2: "vs2 = vs1[v1 := (vs1 ! v1)\<lparr>enters := enters (vs1 ! v1) @ [?e2]\<rparr>]"
    using a2 v1 len1 by (simp add: add_enter_def)
  have len2: "length vs2 = length vs" by (simp add: vs2 len1)
  have avg1: "map avg vs1 = map avg vs" by (simp add: vs1 avg_upd_exits)
  show avg2: "map avg vs2 = map avg vs" by (simp add: vs2 avg_upd_enters avg1)
  have ex: "mset (all_exits vs2) = add_mset ?e1 (mset (all_exits vs))"
    using v0 by (simp add: vs2 all_exits_upd_enters vs1 mset_all_exits_upd)
  have en': "mset (all_enters vs2) = add_mset ?e2 (mset (all_enters vs))"
    using v1 len1 by (simp add: vs2 mset_all_enters_upd) (simp add: vs1 all_enters_upd_exits)
  have exits2: "\<And>v. v < length vs \<Longrightarrow>
      exits (vs2 ! v) = (if v = v0 then exits (vs ! v) @ [?e1] else exits (vs ! v))"
    using v0 v1 by (auto simp: vs2 vs1 nth_list_update)
  have enters2: "\<And>v. v < length vs \<Longrightarrow>
      enters (vs2 ! v) = (if v = v1 then enters (vs ! v) @ [?e2] else enters (vs ! v))"
    using v0 v1 by (auto simp: vs2 vs1 nth_list_update)
  have old: "\<And>e a b. edge_ok eps (map avg vs) ss a b e \<Longrightarrow> edge_ok eps (map avg vs) (ss @ [r]) a b e"
    using edge_ok_mono[where pts' = "[]"] by simp
  have new1: "edge_ok eps (map avg vs) (ss @ [r]) v0 v1 ?e1"
    using v0 v1 st en by (simp add: edge_ok_def)
  have new2: "edge_ok eps (map avg vs) (ss @ [r]) v0 v1 ?e2"
    using v0 v1 st en by (simp add: edge_ok_def)
  show "graph_ok eps vs2 (ss @ [r])"
    unfolding graph_ok_def
  proof (intro conjI allI impI)
    have "mset (map e_section (all_exits vs2))
        = add_mset (length ss) (mset (map e_section (all_exits vs)))"
      by (simp add: ex)
    then show "mset (map e_section (all_exits vs2)) = mset [0..<length (ss @ [r])]"
      using ok by (simp add: graph_ok_def)
    have "mset (map e_section (all_enters vs2))
        = add_mset (length ss) (mset (map e_section (all_enters vs)))"
      by (simp add: en')
    then show "mset (map e_section (all_enters vs2)) = mset [0..<length (ss @ [r])]"
      using ok by (simp add: graph_ok_def)
  next
    fix v assume "v < length vs2"
    then have v: "v < length vs" by (simp add: len2)
    show "\<forall>e\<in>set (exits (vs2 ! v)). edge_ok eps (map avg vs2) (ss @ [r]) v (e_other e) e"
      using ok v old new1 by (auto simp: exits2 avg2 graph_ok_def)
    show "\<forall>e\<in>set (enters (vs2 ! v)). edge_ok eps (map avg vs2) (ss @ [r]) (e_other e) v e"
      using ok v old new2 by (auto simp: enters2 avg2 graph_ok_def)
  qed
qed

lemma finish_skip_inv:
  assumes "edge_inv eps st" and "0 \<le> eps"
    and "find_vertex eps (st_vertices st) p = (vs, vert)"
  shows "edge_inv eps (st\<lparr>st_vertices := vs, st_windings := w\<rparr>)"
proof -
  obtain ext where ext: "vs = st_vertices st @ ext" "all_exits ext = []" "all_enters ext = []"
    using find_vertex_props(2)[OF assms(3,2)] by blast
  show ?thesis
    using assms(1) ext graph_ok_ext[of eps "st_vertices st" "st_sections st" ext]
      ctx_ok_mono[of eps "map avg (st_vertices st)" "st_vix st" "st_context st" "map avg ext"]
    by (simp add: edge_inv_def)
qed

lemma finish_emit_inv:
  assumes inv: "edge_inv eps st" and eps: "0 \<le> eps"
    and i: "i < length (st_context st)"
    and fv: "find_vertex eps (st_vertices st) (s_tp (st_context st ! i)) = (vs, vert)"
    and a1: "add_exit vs (st_vix st ! i)
               \<lparr>e_section = length (st_sections st), e_other = vert\<rparr> = Inr vs1"
    and a2: "add_enter vs1 vert
               \<lparr>e_section = length (st_sections st), e_other = st_vix st ! i\<rparr> = Inr vs2"
  shows "edge_inv eps (st\<lparr>st_context := erase (st_context st) i,
                          st_sections := st_sections st @ [(st_context st ! i)\<lparr>s_windings := w\<rparr>],
                          st_vix := erase (st_vix st) i,
                          st_vertices := vs2,
                          st_windings := w\<rparr>)"
proof -
  let ?r = "(st_context st ! i)\<lparr>s_windings := w\<rparr>"
  obtain ext where ext: "vs = st_vertices st @ ext" "all_exits ext = []" "all_enters ext = []"
    using find_vertex_props(2)[OF fv eps] by blast
  have cok: "ctx_ok eps (map avg vs) (st_vix st) (st_context st)"
    using inv ext(1) ctx_ok_mono[of eps "map avg (st_vertices st)" _ _ "map avg ext"]
    by (simp add: edge_inv_def)
  have gok: "graph_ok eps vs (st_sections st)"
    using inv ext graph_ok_ext by (simp add: edge_inv_def)
  have v0: "st_vix st ! i < length vs" and st0: "starts_at eps (map avg vs ! (st_vix st ! i)) ?r"
    using ctx_ok_nth(2,3)[OF cok i] by (simp_all add: starts_at_def)
  have v1: "vert < length vs" by (rule find_vertex_props(1)[OF fv eps])
  have en: "ends_at eps (map avg vs ! vert) ?r"
    using find_vertex_props(3)[OF fv eps] by (simp add: ends_at_def)
  note g = graph_ok_add_edge[OF gok v0 v1 st0 en a1 a2]
  have "ctx_ok eps (map avg vs2) (erase (st_vix st) i) (erase (st_context st) i)"
    using cok by (simp add: g(2) ctx_ok_erase)
  with g(1) show ?thesis by (simp add: edge_inv_def)
qed

lemma finish_one_inv:
  assumes "edge_inv eps st" and "0 \<le> eps" and "finish_one eps limit i st = Inr st'"
  shows "edge_inv eps st'"
proof (cases "i < length (st_context st) \<and> is_finished eps limit (st_context st ! i)")
  case False
  with assms(1,3) show ?thesis
    by (auto simp: finish_one_def nth_chk_def split: if_splits)
next
  case True
  then have i: "i < length (st_context st)" by simp
  have len: "length (st_vix st) = length (st_context st)"
    using assms(1) by (auto simp: edge_inv_def ctx_ok_def dest: list_all2_lengthD)
  obtain w where w: "winding_loop 0 (take i (st_context st))
      (replicate (length (st_windings st)) 0) = Inr w"
    using assms(3) True by (auto simp: finish_one_def nth_chk_def split: sum.splits)
  obtain vs vert where fv: "find_vertex eps (st_vertices st) (s_tp (st_context st ! i)) = (vs, vert)"
    by (cases "find_vertex eps (st_vertices st) (s_tp (st_context st ! i))") auto
  show ?thesis
  proof (cases "vert = st_vix st ! i")
    case same: True
    with assms(3) True w fv len have "st' = st\<lparr>st_vertices := vs, st_windings := w\<rparr>"
      by (simp add: finish_one_def nth_chk_def Let_def)
    then show ?thesis using finish_skip_inv[OF assms(1,2) fv] by simp
  next
    case diff: False
    from assms(3) True w fv len diff obtain vs1 vs2 where
      a1: "add_exit vs (st_vix st ! i)
             \<lparr>e_section = length (st_sections st), e_other = vert\<rparr> = Inr vs1"
      and a2: "add_enter vs1 vert
             \<lparr>e_section = length (st_sections st), e_other = st_vix st ! i\<rparr> = Inr vs2"
      and st': "st' = st\<lparr>st_context := erase (st_context st) i,
                          st_sections := st_sections st @ [(st_context st ! i)\<lparr>s_windings := w\<rparr>],
                          st_vix := erase (st_vix st) i,
                          st_vertices := vs2,
                          st_windings := w\<rparr>"
      by (auto simp: finish_one_def nth_chk_def Let_def split: sum.splits)
    show ?thesis
      unfolding st' by (rule finish_emit_inv[OF assms(1,2) i fv a1 a2])
  qed
qed

lemma finish_loop_inv:
  "edge_inv eps st \<Longrightarrow> 0 \<le> eps \<Longrightarrow> finish_loop eps limit n st = Inr st' \<Longrightarrow> edge_inv eps st'"
  by (induction n arbitrary: st) (auto split: sum.splits dest: finish_one_inv)

lemma pop_candidate_inv:
  "edge_inv eps st \<Longrightarrow> pop_candidate E d st = Inr (st', limit) \<Longrightarrow> edge_inv eps st'"
  by (auto simp: pop_candidate_def Let_def edge_inv_def split: if_splits sum.splits)

lemma neighbour_step_inv:
  assumes "edge_inv eps (fst stsp)"
    and "neighbour_step E ps d s_ix cix si i stsp = Inr stsp'"
  shows "edge_inv eps (fst stsp')"
  using assms
  by (auto simp: neighbour_step_def Let_def nth_chk_def edge_inv_def
      split: if_splits sum.splits option.splits prod.splits
      intro!: ctx_ok_update dest: split_section_fp)

lemma neighbour_loop_inv:
  "edge_inv eps (fst stsp) \<Longrightarrow> neighbour_loop E ps d s_ix cix si is stsp = Inr stsp'
   \<Longrightarrow> edge_inv eps (fst stsp')"
  by (induction "is" arbitrary: stsp) (auto split: sum.splits dest: neighbour_step_inv)

lemma insert_candidate_cases:
  assumes "insert_candidate E ps d st = Inr r"
  obtains s ix vs v st2 sp c c' pieces m e where
    "nth_chk (st_monos st) (st_monos_end st) = Inr s"
    "lower_bound (\<lambda>c. SectionSorter (EPSILON E) ps (other_dim d) False c s) (st_context st) = Inr ix"
    "find_vertex (EPSILON E) (st_vertices st) (s_fp s) = (vs, v)"
    "neighbour_loop E ps d (st_monos_end st) ix
       (CInterval (pt (s_fp s) (other_dim d)) (pt (s_tp s) (other_dim d)))
       [0..<length (insert_at (st_context st) ix s)]
       (st\<lparr>st_context := insert_at (st_context st) ix s,
           st_vix := insert_at (st_vix st) ix v, st_vertices := vs\<rparr>, []) = Inr (st2, sp)"
    "nth_chk (st_context st2) ix = Inr c"
    "split_section (EPSILON E) ps d c sp = Inr (c', pieces)"
    "push_them E d pieces (st_monos st2, st_monos_end st2) = Inr (m, e)"
    "r = Continue (st2\<lparr>st_context := (st_context st2)[ix := c'], st_monos := m,
                       st_monos_end := e\<rparr>) (sort_heap E (HeapSorter d) (take e m))"
  using assms
  unfolding insert_candidate_def Let_def
  by (simp split: sum.splits prod.splits)

lemma insert_candidate_inv:
  assumes "edge_inv (EPSILON E) st" and "0 \<le> EPSILON E"
    and "insert_candidate E ps d st = Inr (Continue st' rem)"
  shows "edge_inv (EPSILON E) st'"
proof -
  from assms(3) obtain s ix vs v st2 sp c c' pieces m e where
    s: "nth_chk (st_monos st) (st_monos_end st) = Inr s"
    and fv: "find_vertex (EPSILON E) (st_vertices st) (s_fp s) = (vs, v)"
    and nl: "neighbour_loop E ps d (st_monos_end st) ix
       (CInterval (pt (s_fp s) (other_dim d)) (pt (s_tp s) (other_dim d)))
       [0..<length (insert_at (st_context st) ix s)]
       (st\<lparr>st_context := insert_at (st_context st) ix s,
           st_vix := insert_at (st_vix st) ix v, st_vertices := vs\<rparr>, []) = Inr (st2, sp)"
    and c: "nth_chk (st_context st2) ix = Inr c"
    and sp: "split_section (EPSILON E) ps d c sp = Inr (c', pieces)"
    and r: "Continue st' rem = Continue (st2\<lparr>st_context := (st_context st2)[ix := c'], st_monos := m,
                       st_monos_end := e\<rparr>) (sort_heap E (HeapSorter d) (take e m))"
    by (rule insert_candidate_cases)
  have st': "st_context st' = (st_context st2)[ix := c']" "st_vix st' = st_vix st2"
      "st_vertices st' = st_vertices st2" "st_sections st' = st_sections st2"
    using r by simp_all
  obtain ext where ext: "vs = st_vertices st @ ext" "all_exits ext = []" "all_enters ext = []"
    using find_vertex_props(2)[OF fv assms(2)] by blast
  have v: "v < length vs" "starts_at (EPSILON E) (map avg vs ! v) s"
    using find_vertex_props(1,3)[OF fv assms(2)] by (simp_all add: starts_at_def)
  have cok: "ctx_ok (EPSILON E) (map avg vs) (st_vix st) (st_context st)"
    using assms(1) ext(1)
      ctx_ok_mono[of "EPSILON E" "map avg (st_vertices st)" _ _ "map avg ext"]
    by (simp add: edge_inv_def)
  have gok: "graph_ok (EPSILON E) vs (st_sections st)"
    using assms(1) ext graph_ok_ext by (simp add: edge_inv_def)
  have st1: "edge_inv (EPSILON E)
      (st\<lparr>st_context := insert_at (st_context st) ix s,
           st_vix := insert_at (st_vix st) ix v, st_vertices := vs\<rparr>)"
    using cok gok v by (simp add: edge_inv_def ctx_ok_insert)
  have inv2: "edge_inv (EPSILON E) st2"
    using neighbour_loop_inv[OF _ nl] st1 by simp
  have "ix < length (st_context st2)" "c = st_context st2 ! ix"
    using c by (auto simp: nth_chk_def split: if_splits)
  then show ?thesis
    using inv2 sp st' by (auto simp: edge_inv_def intro!: ctx_ok_update dest: split_section_fp)
qed

lemma sweep_step_cases:
  assumes "sweep_step E ps d st = Inr r"
  obtains st1 limit st2 where
    "pop_candidate E d st = Inr (st1, limit)"
    "finish_loop (EPSILON E) limit (length (st_context st1)) st1 = Inr st2"
    "(st_monos_end st2 = 0 \<and> r = Done \<lparr>vertices = st_vertices st2, sections = st_sections st2\<rparr>)
     \<or> (st_monos_end st2 \<noteq> 0 \<and> insert_candidate E ps d st2 = Inr r)"
  using assms
  unfolding sweep_step_def
  by (simp split: sum.splits prod.splits if_splits)

lemma insert_candidate_not_Done: "insert_candidate E ps d st \<noteq> Inr (Done gr)"
proof
  assume "insert_candidate E ps d st = Inr (Done gr)"
  then show False by (rule insert_candidate_cases) simp
qed

lemma sweep_step_inv:
  assumes "edge_inv (EPSILON E) st" and "0 \<le> EPSILON E"
  shows "sweep_step E ps d st = Inr (Continue st' rem) \<Longrightarrow> edge_inv (EPSILON E) st'"
    and "sweep_step E ps d st = Inr (Done gr) \<Longrightarrow> graph_ok (EPSILON E) (vertices gr) (sections gr)"
proof -
  assume a: "sweep_step E ps d st = Inr (Continue st' rem)"
  from a obtain st1 limit st2 where
    "pop_candidate E d st = Inr (st1, limit)"
    "finish_loop (EPSILON E) limit (length (st_context st1)) st1 = Inr st2"
    "insert_candidate E ps d st2 = Inr (Continue st' rem)"
    by (rule sweep_step_cases) auto
  then show "edge_inv (EPSILON E) st'"
    using assms pop_candidate_inv finish_loop_inv insert_candidate_inv by blast
next
  assume a: "sweep_step E ps d st = Inr (Done gr)"
  from a obtain st1 limit st2 where
    "pop_candidate E d st = Inr (st1, limit)"
    "finish_loop (EPSILON E) limit (length (st_context st1)) st1 = Inr st2"
    "gr = \<lparr>vertices = st_vertices st2, sections = st_sections st2\<rparr>"
    by (rule sweep_step_cases) (auto simp: insert_candidate_not_Done)
  then show "graph_ok (EPSILON E) (vertices gr) (sections gr)"
    using assms pop_candidate_inv[of "EPSILON E" st E d st1 limit]
      finish_loop_inv[of "EPSILON E" st1 limit _ st2]
    by (auto simp: edge_inv_def)
qed

lemma sweep_loop_inv:
  "edge_inv (EPSILON E) st \<Longrightarrow> 0 \<le> EPSILON E \<Longrightarrow>
   sweep_loop n E ps d st g = Some (Inr gr, g') \<Longrightarrow>
   graph_ok (EPSILON E) (vertices gr) (sections gr)"
proof (induction n arbitrary: st g)
  case 0
  then show ?case by simp
next
  case (Suc n)
  show ?case
  proof (cases "sweep_step E ps d st")
    case (Inl e)
    with Suc.prems show ?thesis by simp
  next
    case (Inr r)
    show ?thesis
    proof (cases r)
      case (Done gr0)
      with Inr Suc.prems sweep_step_inv(2)[of E st ps d gr0] show ?thesis by simp
    next
      case (Continue st1 rem)
      with Inr Suc.prems sweep_step_inv(1)[of E st ps d st1 rem]
      show ?thesis by (auto intro: Suc.IH)
    qed
  qed
qed

lemma init_state_inv: "edge_inv eps (init_state E ps d)"
  by (simp add: init_state_def Let_def edge_inv_def ctx_ok_def graph_ok_def
      all_exits_def all_enters_def)

lemma count_section_ids:
  assumes "mset (map e_section es) = mset [0..<n]"
  shows "length es = n" and "\<forall>k<n. count_list (map e_section es) k = 1"
proof -
  have "size (mset (map e_section es)) = size (mset [0..<n])" using assms by simp
  then show "length es = n" by simp
  show "\<forall>k<n. count_list (map e_section es) k = 1"
  proof (intro allI impI)
    fix k assume "k < n"
    have "count_list (map e_section es) k = count (mset (map e_section es)) k"
      by (simp only: count_mset)
    also have "\<dots> = count (mset [0..<n]) k" using assms by simp
    also have "\<dots> = 1" using \<open>k < n\<close> by (simp add: count_mset_set')
    finally show "count_list (map e_section es) k = 1" .
  qed
qed

text \<open>
  Claim C7. In the graph returned by the sweep, the section indices carried by the
  outgoing edges of all vertices are exactly \<open>0, \<dots>, n - 1\<close>, each once, for \<open>n\<close> finished
  sections, and so are those carried by the incoming edges: every finished section has
  exactly one outgoing and exactly one incoming edge, and the edges number \<open>2 n\<close> in all.
  The outgoing edge of a section is recorded at a vertex the section starts at and names
  as its other end a vertex the section ends at; the incoming edge is recorded at a vertex
  it ends at and names a vertex it starts at.
\<close>

theorem sweep_graph_edges:
  assumes "sweep_graph n E ps d tol g = Some (Inr gr, g')" and "0 \<le> EPSILON E"
  shows "length (all_exits (vertices gr)) + length (all_enters (vertices gr))
           = 2 * length (sections gr)
       \<and> (\<forall>k<length (sections gr).
             count_list (map e_section (all_exits (vertices gr))) k = 1
           \<and> count_list (map e_section (all_enters (vertices gr))) k = 1)
       \<and> (\<forall>v<length (vertices gr).
             (\<forall>e\<in>set (exits (vertices gr ! v)).
                 edge_ok (EPSILON E) (map avg (vertices gr)) (sections gr) v (e_other e) e)
           \<and> (\<forall>e\<in>set (enters (vertices gr ! v)).
                 edge_ok (EPSILON E) (map avg (vertices gr)) (sections gr) (e_other e) v e))"
proof -
  have ok: "graph_ok (EPSILON E) (vertices gr) (sections gr)"
    using assms sweep_loop_inv[OF init_state_inv assms(2)] by (simp add: sweep_graph_def)
  then have ex: "mset (map e_section (all_exits (vertices gr))) = mset [0..<length (sections gr)]"
    and en: "mset (map e_section (all_enters (vertices gr))) = mset [0..<length (sections gr)]"
    by (simp_all add: graph_ok_def)
  show ?thesis
    using count_section_ids[OF ex] count_section_ids[OF en] ok
    by (simp add: graph_ok_def)
qed

theorem sweep_graph_edges_witness:
  "sweep_graph 2 list_env ps_two X 1 g0 = Some (Inr graph_two, trace_two)
   \<and> 0 \<le> EPSILON list_env
   \<and> length (all_exits (vertices graph_two)) + length (all_enters (vertices graph_two))
       = 2 * length (sections graph_two)
   \<and> length (sections graph_two) = 1
   \<and> count_list (map e_section (all_exits (vertices graph_two))) 0 = 1
   \<and> count_list (map e_section (all_enters (vertices graph_two))) 0 = 1
   \<and> edge_ok (EPSILON list_env) (map avg (vertices graph_two)) (sections graph_two)
         0 1 \<lparr>e_section = 0, e_other = 1\<rparr>
   \<and> edge_ok (EPSILON list_env) (map avg (vertices graph_two)) (sections graph_two)
         0 1 \<lparr>e_section = 0, e_other = 0\<rparr>"
proof -
  have run: "sweep_graph 2 list_env ps_two X 1 g0 = Some (Inr graph_two, trace_two)"
    by (simp add: sweep_defs ps_two_def graph_two_def trace_two_def)
  have eps: "0 \<le> EPSILON list_env"
    by (simp add: list_env_def)
  note th = sweep_graph_edges [OF run eps]
  have n: "length (sections graph_two) = 1" "length (vertices graph_two) = 2"
    and ex0: "\<lparr>e_section = 0, e_other = 1\<rparr> \<in> set (exits (vertices graph_two ! 0))"
    and en1: "\<lparr>e_section = 0, e_other = 0\<rparr> \<in> set (enters (vertices graph_two ! 1))"
    by (simp_all add: graph_two_def)
  note total = th [THEN conjunct1]
  note counts = th [THEN conjunct2, THEN conjunct1, rule_format, of 0]
  note edges0 = th [THEN conjunct2, THEN conjunct2, rule_format, of 0]
  note edges1 = th [THEN conjunct2, THEN conjunct2, rule_format, of 1]
  have cnt: "count_list (map e_section (all_exits (vertices graph_two))) 0 = 1"
    "count_list (map e_section (all_enters (vertices graph_two))) 0 = 1"
    using counts n(1) by simp_all
  have e0: "edge_ok (EPSILON list_env) (map avg (vertices graph_two))
      (sections graph_two) 0 1 \<lparr>e_section = 0, e_other = 1\<rparr>"
    using edges0 [THEN conjunct1, rule_format, OF _ ex0] n(2) by simp
  have e1: "edge_ok (EPSILON list_env) (map avg (vertices graph_two))
      (sections graph_two) 0 1 \<lparr>e_section = 0, e_other = 0\<rparr>"
    using edges1 [THEN conjunct2, rule_format, OF _ en1] n(2) by simp
  show ?thesis
    by (intro conjI run eps total n(1) cnt e0 e1)
qed

end
